theory Spec2Isabelle
  imports Complex_Main "HOL-Library.AList"
begin

section \<open>Weekly attendance tracking: the data model of weeklyAttTrackV2.py\<close>

text \<open>
  The program is a batch pipeline over lists of dictionaries (the rows of CSV files) and
  a dictionary of per-student result dictionaries. The embedding keeps that shape:
  \<^item> a row dictionary is a record; a key the source tests for (\<open>'k' in d\<close>,
    \<open>d.get('k')\<close>) is an \<open>option\<close> field, \<open>None\<close> meaning that the key is absent;
  \<^item> a Python \<open>dict\<close> keyed by student number is an association list in insertion
    order, updated with \<open>AList.update\<close> (replace in place, or append a new key), which
    is the order Python keeps;
  \<^item> numbers are exact rationals: hours and percentages are Python floats in the
    source, and \<open>round(x, 2)\<close> is rounding of the exact value to two decimals, ties to
    even. NaN cells of a CSV file are not represented;
  \<^item> every exception the source can raise on these data is a value of \<open>py_error\<close>,
    and a function that can raise returns \<open>py_error + 'a\<close>.
\<close>

datatype py_error =
  KeyError | UnboundLocalError | TypeError | OSError | FileNotFoundError | ParserError

subsection \<open>Numbers\<close>

definition round_half_even :: "rat \<Rightarrow> int" where
  "round_half_even x =
     (let n = \<lfloor>x\<rfloor>; d = x - of_int n
      in if d < 1 / 2 then n
         else if 1 / 2 < d then n + 1
         else if even n then n else n + 1)"

text \<open>\<open>round(x, 2)\<close>\<close>

definition py_round2 :: "rat \<Rightarrow> rat" where
  "py_round2 x = of_int (round_half_even (x * 100)) / 100"

subsection \<open>Attendance rows\<close>

text \<open>
  One row of an attendance extract, of a consolidated snapshot or (extended by
  \<open>weekly_value\<close>) of the base file. \<open>student_number\<close> and \<open>ind_att_percent\<close> are the
  two keys whose presence the source checks.
\<close>

record att_row =
  student_number :: "int option"
  name :: string
  grade :: string
  hrs_attended :: rat
  hrs_absent :: rat
  hrs_possible :: rat
  ind_att_percent :: "rat option"

record ledger_row = att_row +
  weekly_value :: int

subsection \<open>consolidate_attendance\<close>

text \<open>The dictionary created for a student number seen for the first time.\<close>

definition new_consolidated :: "int \<Rightarrow> 'a att_row_scheme \<Rightarrow> att_row" where
  "new_consolidated student_id row =
     \<lparr>student_number = Some student_id, name = name row, grade = grade row,
      hrs_attended = 0, hrs_absent = 0, hrs_possible = 0, ind_att_percent = Some 0\<rparr>"

text \<open>
  The loop body over \<open>attendance_data\<close>. The state is \<open>consolidated_data\<close> and the local
  variable \<open>attendance_percentage\<close>, which is assigned only in the branch
  \<open>total_possible > 0\<close> (\<open>None\<close>: not yet bound) and is read unconditionally by the last
  statement of the body.
\<close>

fun consolidate_loop ::
  "'a att_row_scheme list \<Rightarrow> (int \<times> att_row) list \<Rightarrow> rat option
     \<Rightarrow> py_error + (int \<times> att_row) list" where
  "consolidate_loop [] consolidated_data attendance_percentage = Inr consolidated_data"
| "consolidate_loop (row # rest) consolidated_data attendance_percentage =
     (case student_number row of
        None \<Rightarrow> Inl KeyError
      | Some student_id \<Rightarrow>
          let entry = (case map_of consolidated_data student_id of
                         None \<Rightarrow> new_consolidated student_id row
                       | Some e \<Rightarrow> e);
              summed = entry\<lparr>hrs_attended := hrs_attended entry + hrs_attended row,
                             hrs_absent := hrs_absent entry + hrs_absent row,
                             hrs_possible := hrs_possible entry + hrs_possible row\<rparr>;
              total_attended = hrs_attended summed;
              total_possible = hrs_possible summed;
              attendance_percentage' =
                (if total_possible > 0 then Some (total_attended / total_possible * 100)
                 else attendance_percentage)
          in (case attendance_percentage' of
                None \<Rightarrow> Inl UnboundLocalError
              | Some p \<Rightarrow>
                  consolidate_loop rest
                    (AList.update student_id (summed\<lparr>ind_att_percent := Some (py_round2 p)\<rparr>)
                       consolidated_data)
                    attendance_percentage'))"

definition consolidate_attendance :: "'a att_row_scheme list \<Rightarrow> py_error + att_row list" where
  "consolidate_attendance attendance_data =
     (case consolidate_loop attendance_data [] None of
        Inl e \<Rightarrow> Inl e
      | Inr consolidated_data \<Rightarrow>
          Inr (filter (\<lambda>data. hrs_possible data > 0) (map snd consolidated_data)))"

subsection \<open>The results dictionary\<close>

text \<open>
  A cell of the demographic extract, and later the school name that replaces it: a
  number, a string or NaN (an empty cell).
\<close>

datatype pyval = PInt int | PStr string | PNan

text \<open>
  The per-student result dictionary. It grows stage by stage, so every key added after
  \<open>prime_results\<close> is an \<open>option\<close> field (\<open>None\<close>: key absent). \<open>one_week_back_percent\<close>
  can hold Python's \<open>None\<close>, hence the second \<open>option\<close>. The keys \<open>student_number\<close>,
  \<open>name\<close> and \<open>grade\<close> carry the prefix \<open>res_\<close> here. Of the demographic and probation
  keys only the two school keys are kept; the others are copied verbatim by the source
  and read by no function modelled here.
\<close>

record result_rec =
  res_student_number :: int
  res_name :: string
  res_grade :: string
  current_week_att_percent :: rat
  below_90_1_week :: bool
  one_week_back_percent :: "rat option option"
  below_90_2_weeks :: "bool option"
  trend_1_week :: "string option"
  two_weeks_back_percent :: "rat option"
  below_90_3_weeks :: "bool option"
  trend_2_weeks :: "string option"
  attending_school :: "pyval option"
  school_of_residence :: "pyval option"
  Med_Full_days :: "nat option"
  Med_Partial_days :: "nat option"
  Med_Absence_Percent :: "rat option"
  Best_Case_Attendance_Percent :: "rat option"

type_synonym results = "(int \<times> result_rec) list"

definition new_result :: "int \<Rightarrow> 'a att_row_scheme \<Rightarrow> rat \<Rightarrow> result_rec" where
  "new_result student_id student current_att_percent =
     \<lparr>res_student_number = student_id, res_name = name student, res_grade = grade student,
      current_week_att_percent = current_att_percent,
      below_90_1_week = (current_att_percent < 90),
      one_week_back_percent = None, below_90_2_weeks = None, trend_1_week = None,
      two_weeks_back_percent = None, below_90_3_weeks = None, trend_2_weeks = None,
      attending_school = None, school_of_residence = None,
      Med_Full_days = None, Med_Partial_days = None,
      Med_Absence_Percent = None, Best_Case_Attendance_Percent = None\<rparr>"

subsection \<open>prime_results\<close>

text \<open>A row without student number or percentage is reported and skipped.\<close>

fun prime_results_loop :: "'a att_row_scheme list \<Rightarrow> results \<Rightarrow> results" where
  "prime_results_loop [] results = results"
| "prime_results_loop (student # rest) results =
     (case (student_number student, ind_att_percent student) of
        (Some student_id, Some current_att_percent) \<Rightarrow>
          prime_results_loop rest
            (AList.update student_id (new_result student_id student current_att_percent) results)
      | _ \<Rightarrow> prime_results_loop rest results)"

definition prime_results :: "'a att_row_scheme list \<Rightarrow> results" where
  "prime_results current_week_data = prime_results_loop current_week_data []"

subsection \<open>compare_one_week_back\<close>

text \<open>
  \<open>next((s for s in data if s['student_number'] == student_id), None)\<close>: the first row
  with that number; a row without the key raises when the search reaches it.
\<close>

fun find_student :: "'a att_row_scheme list \<Rightarrow> int \<Rightarrow> py_error + 'a att_row_scheme option" where
  "find_student [] student_id = Inr None"
| "find_student (s # rest) student_id =
     (case student_number s of
        None \<Rightarrow> Inl KeyError
      | Some k \<Rightarrow> if k = student_id then Inr (Some s) else find_student rest student_id)"

definition trend_1 :: "rat \<Rightarrow> rat option \<Rightarrow> string" where
  "trend_1 current_att_percent one_week_att_percent =
     (case one_week_att_percent of
        None \<Rightarrow> ''N/A''
      | Some p \<Rightarrow> if current_att_percent > p then ''Up''
                  else if current_att_percent < p then ''Down''
                  else ''No Change'')"

definition is_below_90_2_weeks :: "rat \<Rightarrow> rat option \<Rightarrow> bool" where
  "is_below_90_2_weeks current_att_percent one_week_att_percent =
     (current_att_percent < 90 \<and>
      (case one_week_att_percent of None \<Rightarrow> False | Some p \<Rightarrow> p < 90))"

text \<open>
  The loop over \<open>current_week_data\<close>. The local variable \<open>one_week_att_percent\<close> is
  assigned only when a matching row was found: the third argument is its value left by
  the iterations before (\<open>None\<close>: not yet bound; \<open>Some None\<close>: bound to Python's
  \<open>None\<close>). Reading it unbound raises: in the flag expression when the current
  percentage is below 90, and otherwise, after \<open>results[student_id]\<close> was looked up, in
  the dictionary passed to \<open>update\<close>.
\<close>

fun compare_one_loop ::
  "'a att_row_scheme list \<Rightarrow> 'b att_row_scheme list \<Rightarrow> rat option option \<Rightarrow> results
     \<Rightarrow> py_error + results" where
  "compare_one_loop [] one_week_back_data one_week_att_percent results = Inr results"
| "compare_one_loop (student # rest) one_week_back_data one_week_att_percent results =
     (case student_number student of
        None \<Rightarrow> Inl KeyError
      | Some student_id \<Rightarrow>
     (case ind_att_percent student of
        None \<Rightarrow> Inl KeyError
      | Some current_att_percent \<Rightarrow>
     (case find_student one_week_back_data student_id of
        Inl e \<Rightarrow> Inl e
      | Inr one_week_student \<Rightarrow>
          let one_week_att_percent' =
                (case one_week_student of
                   Some s \<Rightarrow> Some (ind_att_percent s)
                 | None \<Rightarrow> one_week_att_percent)
          in if current_att_percent < 90 \<and> one_week_att_percent' = None
             then Inl UnboundLocalError
             else (case map_of results student_id of
                     None \<Rightarrow> Inl KeyError
                   | Some r \<Rightarrow>
                  (case one_week_att_percent' of
                     None \<Rightarrow> Inl UnboundLocalError
                   | Some p \<Rightarrow>
                       compare_one_loop rest one_week_back_data one_week_att_percent'
                         (AList.update student_id
                            (r\<lparr>one_week_back_percent := Some p,
                               below_90_2_weeks := Some (is_below_90_2_weeks current_att_percent p),
                               trend_1_week := Some (trend_1 current_att_percent p)\<rparr>)
                            results))))))"

definition compare_one_week_back ::
  "'a att_row_scheme list \<Rightarrow> 'b att_row_scheme list \<Rightarrow> results \<Rightarrow> py_error + results" where
  "compare_one_week_back current_week_data one_week_back_data results =
     (if one_week_back_data = [] then Inr results
      else compare_one_loop current_week_data one_week_back_data None results)"

subsection \<open>compare_two_weeks_back\<close>

text \<open>
  The flag expression \<open>current < 90 and results[id]['one_week_back_percent'] < 90 and
  two_weeks < 90\<close>, evaluated left to right with short circuit: the results dictionary is
  read only when the current percentage is below 90, and comparing Python's \<open>None\<close> with
  a number raises.
\<close>

definition is_below_90_3_weeks ::
  "rat \<Rightarrow> int \<Rightarrow> rat option \<Rightarrow> results \<Rightarrow> py_error + bool" where
  "is_below_90_3_weeks current_att_percent student_id two_weeks_att_percent results =
     (if current_att_percent < 90 then
        (case map_of results student_id of
           None \<Rightarrow> Inl KeyError
         | Some r \<Rightarrow>
        (case one_week_back_percent r of
           None \<Rightarrow> Inl KeyError
         | Some None \<Rightarrow> Inl TypeError
         | Some (Some one_week) \<Rightarrow>
             if one_week < 90 then
               (case two_weeks_att_percent of
                  None \<Rightarrow> Inl TypeError
                | Some two_weeks \<Rightarrow> Inr (two_weeks < 90))
             else Inr False))
      else Inr False)"

definition trend_2 :: "rat \<Rightarrow> rat \<Rightarrow> string" where
  "trend_2 current_att_percent two_weeks_att_percent =
     (if current_att_percent > two_weeks_att_percent then ''Up''
      else if current_att_percent < two_weeks_att_percent then ''Down''
      else ''No Change'')"

fun compare_two_loop ::
  "'a att_row_scheme list \<Rightarrow> 'b att_row_scheme list \<Rightarrow> results \<Rightarrow> py_error + results" where
  "compare_two_loop [] two_weeks_back_data results = Inr results"
| "compare_two_loop (student # rest) two_weeks_back_data results =
     (case student_number student of
        None \<Rightarrow> Inl KeyError
      | Some student_id \<Rightarrow>
     (case ind_att_percent student of
        None \<Rightarrow> Inl KeyError
      | Some current_att_percent \<Rightarrow>
     (case find_student two_weeks_back_data student_id of
        Inl e \<Rightarrow> Inl e
      | Inr None \<Rightarrow> compare_two_loop rest two_weeks_back_data results
      | Inr (Some two_weeks_student) \<Rightarrow>
          let two_weeks_att_percent = ind_att_percent two_weeks_student
          in (case is_below_90_3_weeks current_att_percent student_id
                     two_weeks_att_percent results of
                Inl e \<Rightarrow> Inl e
              | Inr below_3 \<Rightarrow>
             (case map_of results student_id of
                None \<Rightarrow> Inl KeyError
              | Some r \<Rightarrow>
             (case two_weeks_att_percent of
                None \<Rightarrow> Inl TypeError
              | Some two_weeks \<Rightarrow>
                  compare_two_loop rest two_weeks_back_data
                    (AList.update student_id
                       (r\<lparr>two_weeks_back_percent := Some two_weeks,
                          below_90_3_weeks := Some below_3,
                          trend_2_weeks := Some (trend_2 current_att_percent two_weeks)\<rparr>)
                       results)))))))"

definition compare_two_weeks_back ::
  "'a att_row_scheme list \<Rightarrow> 'b att_row_scheme list \<Rightarrow> results \<Rightarrow> py_error + results" where
  "compare_two_weeks_back current_week_data two_weeks_back_data results =
     (if two_weeks_back_data = [] then Inr results
      else compare_two_loop current_week_data two_weeks_back_data results)"

subsection \<open>flag_attendance_issues\<close>

definition flag_attendance_issues ::
  "'a att_row_scheme list \<Rightarrow> 'b att_row_scheme list \<Rightarrow> 'c att_row_scheme list
     \<Rightarrow> py_error + results" where
  "flag_attendance_issues current_week one_week_back two_weeks_back =
     (case compare_one_week_back current_week one_week_back (prime_results current_week) of
        Inl e \<Rightarrow> Inl e
      | Inr results \<Rightarrow> compare_two_weeks_back current_week two_weeks_back results)"

subsection \<open>Files, data frames and read_csv\<close>

text \<open>
  What \<open>pd.read_csv\<close> makes of a file: it fails on it, or yields a table without or
  with the column \<open>weekly_value\<close>. The file system maps a path to its file.
\<close>

datatype csv_file = Unreadable | AttendanceCsv "att_row list" | LedgerCsv "ledger_row list"

type_synonym fs = "string \<rightharpoonup> csv_file"

text \<open>A data frame; \<open>NoColumns\<close> is \<open>pd.DataFrame()\<close>.\<close>

datatype dataframe = NoColumns | Attendance "att_row list" | Ledger "ledger_row list"

text \<open>
  \<open>pd.read_csv\<close>: \<open>FileNotFoundError\<close> for a missing file, and \<open>ParserError\<close> stands for
  every other exception it raises on a file it cannot read.
\<close>

definition pd_read_csv :: "fs \<Rightarrow> string \<Rightarrow> py_error + dataframe" where
  "pd_read_csv files file_path =
     (case files file_path of
        None \<Rightarrow> Inl FileNotFoundError
      | Some Unreadable \<Rightarrow> Inl ParserError
      | Some (AttendanceCsv rows) \<Rightarrow> Inr (Attendance rows)
      | Some (LedgerCsv rows) \<Rightarrow> Inr (Ledger rows))"

text \<open>
  \<open>read_csv\<close> with its \<open>try\<close>/\<open>except\<close>: the result, and the lines it prints (the
  text of the exception, which ends the second message, is left out). The rows of a
  table carry the canonical field names, so stripping and renaming the headers by
  \<open>column_mapping\<close> leaves them as they are.
\<close>

definition read_csv ::
  "fs \<Rightarrow> string \<Rightarrow> (string \<times> string) list \<Rightarrow> (py_error + dataframe) \<times> string list" where
  "read_csv files file_path column_mapping =
     (case pd_read_csv files file_path of
        Inr df \<Rightarrow> (Inr df, [])
      | Inl FileNotFoundError \<Rightarrow>
          (Inr NoColumns, [''Error: The file '' @ file_path @ '' was not found.''])
      | Inl e \<Rightarrow>
          (Inr NoColumns, [''An error occurred while reading the file '' @ file_path]))"

text \<open>\<open>df_to_dict\<close> of the current week's frame: its rows as dictionaries.\<close>

definition df_to_dict :: "dataframe \<Rightarrow> att_row list" where
  "df_to_dict df =
     (case df of
        NoColumns \<Rightarrow> []
      | Attendance rows \<Rightarrow> rows
      | Ledger rows \<Rightarrow> map att_row.truncate rows)"

definition base_file_exists :: "fs \<Rightarrow> string \<Rightarrow> bool" where
  "base_file_exists files base_file_path = (files base_file_path \<noteq> None)"

subsection \<open>The base file: reading the previous weeks\<close>

text \<open>
  \<open>df['weekly_value']\<close> raises \<open>KeyError\<close> on a frame without that column. The two
  frames returned are given by their rows, which is what \<open>df_to_dict\<close> makes of them.
\<close>

definition read_previous_weeks ::
  "fs \<Rightarrow> string \<Rightarrow> (string \<times> string) list
     \<Rightarrow> py_error + (ledger_row list \<times> ledger_row list)" where
  "read_previous_weeks files base_file_path column_mapping =
     (case fst (read_csv files base_file_path column_mapping) of
        Inl e \<Rightarrow> Inl e
      | Inr (Ledger rows) \<Rightarrow>
          Inr (filter (\<lambda>r. weekly_value r = - 1) rows, filter (\<lambda>r. weekly_value r = - 2) rows)
      | Inr _ \<Rightarrow> Inl KeyError)"

definition input_attendance_data ::
  "fs \<Rightarrow> string \<Rightarrow> string \<Rightarrow> (string \<times> string) list
     \<Rightarrow> py_error + (att_row list \<times> ledger_row list \<times> ledger_row list)" where
  "input_attendance_data files new_report base_file column_mapping =
     (case fst (read_csv files new_report column_mapping) of
        Inl e \<Rightarrow> Inl e
      | Inr df \<Rightarrow>
     (case consolidate_attendance (df_to_dict df) of
        Inl e \<Rightarrow> Inl e
      | Inr current_week_data \<Rightarrow>
          if base_file_exists files base_file then
            (case read_previous_weeks files base_file column_mapping of
               Inl e \<Rightarrow> Inl e
             | Inr (one_week_prior_data, two_weeks_prior_data) \<Rightarrow>
                 Inr (current_week_data, one_week_prior_data, two_weeks_prior_data))
          else Inr (current_week_data, [], [])))"

subsection \<open>The base file: update_base_file\<close>

definition prepare_current_week_data :: "att_row list \<Rightarrow> ledger_row list" where
  "prepare_current_week_data current_week_data =
     map (\<lambda>r. att_row.extend r (ledger_row.fields (- 1))) current_week_data"

definition clean_base_file :: "ledger_row list \<Rightarrow> ledger_row list" where
  "clean_base_file df = filter (\<lambda>r. weekly_value r \<noteq> - 3) df"

text \<open>
  The base file path, given by what \<open>os.path.split\<close> and \<open>os.path.splitext\<close> make of
  it: directory, file name without extension, extension.
\<close>

record base_path =
  dir_name :: string
  file_base :: string
  file_ext :: string

definition os_path_join :: "string \<Rightarrow> string \<Rightarrow> string" where
  "os_path_join d f =
     (if d = [] then f else if last d = CHR ''/'' then d @ f else d @ ''/'' @ f)"

definition path_of :: "base_path \<Rightarrow> string" where
  "path_of p = os_path_join (dir_name p) (file_base p @ file_ext p)"

definition backup_file_path :: "base_path \<Rightarrow> string \<Rightarrow> string" where
  "backup_file_path p timestamp =
     os_path_join (dir_name p) (file_base p @ ''_'' @ timestamp @ file_ext p)"

text \<open>
  The writes to the file system, in the order the program performs them:
  \<open>shutil.copy2(src, dst)\<close> and \<open>df.to_csv(path)\<close> of a frame with \<open>weekly_value\<close>.
\<close>

datatype io_op = CopyFile string string | ToCsv string "ledger_row list"

fun apply_io :: "fs \<Rightarrow> io_op \<Rightarrow> fs" where
  "apply_io files (CopyFile src dst) = files(dst := files src)"
| "apply_io files (ToCsv file_path rows) = files(file_path \<mapsto> LedgerCsv rows)"

definition run_io :: "io_op list \<Rightarrow> fs \<Rightarrow> fs" where
  "run_io ops files = foldl apply_io files ops"

definition initialize_base_file :: "att_row list \<Rightarrow> string \<Rightarrow> io_op list" where
  "initialize_base_file current_week_data base_file_path =
     [ToCsv base_file_path (prepare_current_week_data current_week_data)]"

definition create_backup :: "base_path \<Rightarrow> string \<Rightarrow> io_op list" where
  "create_backup p timestamp = [CopyFile (path_of p) (backup_file_path p timestamp)]"

text \<open>
  \<open>update_base_file\<close>: the writes it performs, in order, and the exception that ended
  it, if any. Besides the source's three arguments it takes what it reads from its
  environment: the global \<open>TESTING_MODE\<close>, whether \<open>shutil.copy2\<close> succeeds
  (\<open>OSError\<close> otherwise), the time stamp of \<open>datetime.now()\<close> and the files before the
  call.
\<close>

definition update_base_file ::
  "bool \<Rightarrow> bool \<Rightarrow> string \<Rightarrow> fs \<Rightarrow> att_row list \<Rightarrow> base_path \<Rightarrow> (string \<times> string) list
     \<Rightarrow> io_op list \<times> py_error option" where
  "update_base_file TESTING_MODE copy_ok timestamp files current_week_data p column_mapping =
     (if TESTING_MODE then ([], None)
      else if \<not> base_file_exists files (path_of p) then
        (initialize_base_file current_week_data (path_of p), None)
      else if \<not> copy_ok then ([], Some OSError)
      else
        let backup = create_backup p timestamp
        in (case fst (read_csv (run_io backup files) (path_of p) column_mapping) of
              Inl e \<Rightarrow> (backup, Some e)
            | Inr (Ledger rows) \<Rightarrow>
                let df = map (\<lambda>r. r\<lparr>weekly_value := weekly_value r - 1\<rparr>) rows;
                    df = clean_base_file df;
                    current_week_df = prepare_current_week_data current_week_data;
                    updated_df = df @ current_week_df
                in (backup @ [ToCsv (path_of p) updated_df], None)
            | Inr _ \<Rightarrow> (backup, Some KeyError)))"

text \<open>
  The steps of \<open>main\<close> that read or write the base file: step 1 (read the inputs),
  steps 2 to 4 (the three calls that \<open>flag_attendance_issues\<close> bundles) and the update
  of the base file, which \<open>main\<close> guards by \<open>TESTING_MODE\<close> once more. It returns the
  results (or the exception) and the files after the run.
\<close>

definition main_attendance_steps ::
  "bool \<Rightarrow> bool \<Rightarrow> string \<Rightarrow> fs \<Rightarrow> string \<Rightarrow> base_path \<Rightarrow> (string \<times> string) list
     \<Rightarrow> (py_error + results) \<times> fs" where
  "main_attendance_steps TESTING_MODE copy_ok timestamp files current_week_file base_file
       attendance_mapping =
     (case input_attendance_data files current_week_file (path_of base_file)
             attendance_mapping of
        Inl e \<Rightarrow> (Inl e, files)
      | Inr (current_week_data, one_week_back_data, two_weeks_back_data) \<Rightarrow>
     (case flag_attendance_issues current_week_data one_week_back_data
             two_weeks_back_data of
        Inl e \<Rightarrow> (Inl e, files)
      | Inr results \<Rightarrow>
          if \<not> TESTING_MODE then
            (case update_base_file TESTING_MODE copy_ok timestamp files current_week_data
                    base_file attendance_mapping of
               (ops, None) \<Rightarrow> (Inr results, run_io ops files)
             | (ops, Some e) \<Rightarrow> (Inl e, run_io ops files))
          else (Inr results, files)))"

subsection \<open>process_additional_data\<close>

text \<open>
  The rows of the demographic extract and of the two medical extracts. Of a demographic
  row only the keys read for the two school fields are kept (prefix \<open>ps_\<close>); the
  probation extract sets none of the keys of \<open>result_rec\<close> and is left out.
\<close>

record ps_row =
  ps_student_number :: int
  ps_attending_school :: pyval
  ps_school_of_residence :: pyval

record med_row =
  med_student_number :: int
  att_code :: string


text \<open>The global \<open>TOTAL_SCHOOL_DAYS\<close> is the first argument.\<close>

definition calculate_med_absence_percentage :: "nat \<Rightarrow> nat \<Rightarrow> nat \<Rightarrow> rat" where
  "calculate_med_absence_percentage total_school_days med_full_days med_partial_days =
     (if total_school_days = 0 then 0
      else let total_med_days = med_full_days + med_partial_days;
               absence_percentage = of_nat total_med_days / of_nat total_school_days * 100
           in py_round2 absence_percentage)"

fun ps_loop :: "ps_row list \<Rightarrow> results \<Rightarrow> results" where
  "ps_loop [] results_dict = results_dict"
| "ps_loop (ps_student # rest) results_dict =
     (let student_id = ps_student_number ps_student
      in case map_of results_dict student_id of
           None \<Rightarrow> ps_loop rest results_dict
         | Some r \<Rightarrow>
             ps_loop rest
               (AList.update student_id
                  (r\<lparr>attending_school := Some (ps_attending_school ps_student),
                     school_of_residence := Some (ps_school_of_residence ps_student)\<rparr>)
                  results_dict))"

text \<open>The counting loops: \<open>counts[student_id] += 1\<close>, starting from 0.\<close>

fun count_loop :: "med_row list \<Rightarrow> (int \<times> nat) list \<Rightarrow> (int \<times> nat) list" where
  "count_loop [] counts = counts"
| "count_loop (row # rest) counts =
     (let student_id = med_student_number row;
          c = (case map_of counts student_id of None \<Rightarrow> 0 | Some n \<Rightarrow> n)
      in count_loop rest (AList.update student_id (c + 1) counts))"

definition counts_get :: "(int \<times> nat) list \<Rightarrow> int \<Rightarrow> nat" where
  "counts_get counts student_id =
     (case map_of counts student_id of None \<Rightarrow> 0 | Some n \<Rightarrow> n)"

definition add_med_fields ::
  "nat \<Rightarrow> (int \<times> nat) list \<Rightarrow> (int \<times> nat) list \<Rightarrow> int \<times> result_rec \<Rightarrow> int \<times> result_rec" where
  "add_med_fields total_school_days med_counts medp_counts item =
     (let student_id = fst item; data = snd item;
          med_full_days = counts_get med_counts student_id;
          med_partial_days = counts_get medp_counts student_id;
          med_absence_percent =
            calculate_med_absence_percentage total_school_days med_full_days med_partial_days;
          current_attendance = current_week_att_percent data
      in (student_id,
          data\<lparr>Med_Full_days := Some med_full_days,
               Med_Partial_days := Some med_partial_days,
               Med_Absence_Percent := Some med_absence_percent,
               Best_Case_Attendance_Percent :=
                 Some (min (current_attendance + med_absence_percent) 100)\<rparr>))"

definition process_additional_data ::
  "nat \<Rightarrow> results \<Rightarrow> ps_row list \<Rightarrow> med_row list \<Rightarrow> med_row list \<Rightarrow> results" where
  "process_additional_data total_school_days results_dict ps_data med_data medp_data =
     (let joined = ps_loop ps_data results_dict;
          med_counts = count_loop med_data [];
          medp_counts = count_loop medp_data []
      in map (add_med_fields total_school_days med_counts medp_counts) joined)"

subsection \<open>filter_subset_by_conditions\<close>

text \<open>
  The data frame built from a list of result dictionaries has a column for every key
  that some dictionary has; selecting a column it does not have raises \<open>KeyError\<close>. A
  cell of a dictionary without the key is NaN, which equals neither \<open>True\<close> nor
  \<open>'Down'\<close>. Filtering keeps the columns.
\<close>

definition has_column :: "(result_rec \<Rightarrow> 'a option) \<Rightarrow> result_rec list \<Rightarrow> bool" where
  "has_column key df = (\<exists>r \<in> set df. key r \<noteq> None)"

definition filter_subset_by_conditions :: "result_rec list \<Rightarrow> py_error + result_rec list" where
  "filter_subset_by_conditions df0 =
     (if \<not> has_column below_90_3_weeks df0 then Inl KeyError
      else let df = filter (\<lambda>r. below_90_3_weeks r = Some True \<and> current_week_att_percent r < 90) df0
      in if \<not> has_column trend_2_weeks df0 then Inl KeyError
      else let df = filter (\<lambda>r. trend_2_weeks r = Some ''Down'') df
      in if \<not> has_column trend_1_week df0 then Inl KeyError
      else let df = filter (\<lambda>r. trend_1_week r = Some ''Down'') df
      in if \<not> has_column below_90_2_weeks df0 then Inl KeyError
      else let df = filter (\<lambda>r. below_90_2_weeks r = Some True) df;
               df = filter (\<lambda>r. below_90_1_week r = True) df;
               df = filter (\<lambda>r. current_week_att_percent r \<ge> 70) df
      in Inr df)"

text \<open>
  The predicate in the words of the specification: the strict conjunction of six
  conditions.
\<close>

definition qualifies_for_letter :: "result_rec \<Rightarrow> bool" where
  "qualifies_for_letter r \<longleftrightarrow>
     below_90_3_weeks r = Some True \<and> current_week_att_percent r < 90 \<and>
     trend_2_weeks r = Some ''Down'' \<and> trend_1_week r = Some ''Down'' \<and>
     below_90_2_weeks r = Some True \<and> current_week_att_percent r \<ge> 70"

subsection \<open>map_school_codes and filter_unknown_schools\<close>

text \<open>The decimal digits of a number, as \<open>str\<close> prints them.\<close>

definition digit_char :: "nat \<Rightarrow> char" where
  "digit_char d = char_of (d + 48)"

fun string_of_nat :: "nat \<Rightarrow> string" where
  "string_of_nat n =
     (if 10 \<le> n then string_of_nat (n div 10) @ [digit_char (n mod 10)]
      else [digit_char n])"

text \<open>
  What an f-string prints for the value of \<open>d.get(key)\<close>; numeric codes are integers
  here.
\<close>

definition py_str :: "pyval option \<Rightarrow> string" where
  "py_str v =
     (case v of
        None \<Rightarrow> ''None''
      | Some (PInt n) \<Rightarrow> (if n < 0 then ''-'' @ string_of_nat (nat (- n)) else string_of_nat (nat n))
      | Some (PStr s) \<Rightarrow> s
      | Some PNan \<Rightarrow> ''nan'')"

text \<open>\<open>code in school_dict\<close> and \<open>school_dict[code]\<close>; the keys of the dictionary are integers.\<close>

definition school_lookup :: "(int \<times> string) list \<Rightarrow> pyval option \<Rightarrow> string option" where
  "school_lookup school_dict code =
     (case code of Some (PInt n) \<Rightarrow> map_of school_dict n | _ \<Rightarrow> None)"

definition map_code :: "(int \<times> string) list \<Rightarrow> pyval option \<Rightarrow> pyval" where
  "map_code school_dict code =
     (case school_lookup school_dict code of
        Some school \<Rightarrow> PStr school
      | None \<Rightarrow> PStr (''Unknown School (Code: '' @ py_str code @ '')''))"

definition map_school_codes :: "results \<Rightarrow> (int \<times> string) list \<Rightarrow> results" where
  "map_school_codes results_dict school_dict =
     map (\<lambda>(student_id, student_data).
            (student_id,
             student_data\<lparr>attending_school :=
                            Some (map_code school_dict (attending_school student_data)),
                          school_of_residence :=
                            Some (map_code school_dict (school_of_residence student_data))\<rparr>))
         results_dict"

definition filter_unknown_schools :: "results \<Rightarrow> results" where
  "filter_unknown_schools results_dict =
     filter (\<lambda>(student_id, data).
               school_of_residence data \<noteq> Some (PStr ''Unknown School (Code: None)''))
            results_dict"

subsection \<open>The reports\<close>







subsection \<open>Example data\<close>

text \<open>
  The rows of the repository's own tests (\<open>testing.py\<close>: \<open>TestCompareTwoWeeksBack\<close>,
  \<open>TestConsolidateAttendance\<close>, \<open>TestUpdateBaseFile\<close>) and the file names of \<open>main\<close>. The rows of the comparison tests
  carry no hours, which are 0 here.
\<close>

definition test_row :: "int \<Rightarrow> string \<Rightarrow> string \<Rightarrow> rat \<Rightarrow> att_row" where
  "test_row n nm g p =
     \<lparr>student_number = Some n, name = nm, grade = g, hrs_attended = 0, hrs_absent = 0,
      hrs_possible = 0, ind_att_percent = Some p\<rparr>"

definition test_current_week_data :: "att_row list" where
  "test_current_week_data =
     [test_row 1001 ''John Doe'' ''5'' (8333 / 100),
      test_row 1002 ''Jane Smith'' ''5'' (8182 / 100),
      test_row 1003 ''Alice Brown'' ''6'' 85,
      test_row 1004 ''Bob White'' ''6'' 78,
      test_row 1005 ''Charlie Black'' ''6'' 91]"

definition test_one_week_back_data :: "att_row list" where
  "test_one_week_back_data =
     [test_row 1001 ''John Doe'' ''5'' (6667 / 100),
      test_row 1002 ''Jane Smith'' ''5'' (7273 / 100),
      test_row 1003 ''Alice Brown'' ''6'' 95,
      test_row 1004 ''Bob White'' ''6'' 85,
      test_row 1005 ''Charlie Black'' ''6'' 92]"

definition test_two_weeks_back_data :: "att_row list" where
  "test_two_weeks_back_data =
     [test_row 1001 ''John Doe'' ''5'' 50,
      test_row 1002 ''Jane Smith'' ''5'' 75,
      test_row 1003 ''Alice Brown'' ''6'' 92,
      test_row 1004 ''Bob White'' ''6'' 89,
      test_row 1005 ''Charlie Black'' ''6'' 93]"

definition unmatched_current_week_data :: "att_row list" where
  "unmatched_current_week_data =
     [test_row 1001 ''John Doe'' ''5'' 80, test_row 1002 ''Jane Smith'' ''5'' 85]"

definition unmatched_one_week_back_data :: "att_row list" where
  "unmatched_one_week_back_data = [test_row 1001 ''John Doe'' ''5'' 70]"

definition zero_hours_row :: att_row where
  "zero_hours_row =
     \<lparr>student_number = Some 1001, name = ''John Doe'', grade = ''5'', hrs_attended = 0,
      hrs_absent = 0, hrs_possible = 0, ind_att_percent = None\<rparr>"

definition test_attendance_data :: "att_row list" where
  "test_attendance_data =
     [\<lparr>student_number = Some 1001, name = ''John Doe'', grade = ''5'', hrs_attended = 10,
       hrs_absent = 2, hrs_possible = 12, ind_att_percent = None\<rparr>,
      \<lparr>student_number = Some 1001, name = ''John Doe'', grade = ''5'', hrs_attended = 10,
       hrs_absent = 2, hrs_possible = 10, ind_att_percent = None\<rparr>,
      \<lparr>student_number = Some 1002, name = ''Jane Smith'', grade = ''5'', hrs_attended = 18,
       hrs_absent = 4, hrs_possible = 22, ind_att_percent = None\<rparr>,
      \<lparr>student_number = Some 1003, name = ''Emily White'', grade = ''6'', hrs_attended = 20,
       hrs_absent = 0, hrs_possible = 20, ind_att_percent = None\<rparr>]"

definition ledger_entry ::
  "int \<Rightarrow> string \<Rightarrow> string \<Rightarrow> rat \<Rightarrow> rat \<Rightarrow> rat \<Rightarrow> rat \<Rightarrow> int \<Rightarrow> ledger_row" where
  "ledger_entry n nm g attended absent possible percent age =
     \<lparr>student_number = Some n, name = nm, grade = g, hrs_attended = attended,
      hrs_absent = absent, hrs_possible = possible, ind_att_percent = Some percent,
      weekly_value = age\<rparr>"

definition main_base_file :: base_path where
  "main_base_file = \<lparr>dir_name = '''', file_base = ''base_file'', file_ext = ''.csv''\<rparr>"

definition test_base_file_content :: "ledger_row list" where
  "test_base_file_content =
     [ledger_entry 1001 ''John Doe'' ''5'' 20 2 22 (9091 / 100) (- 1),
      ledger_entry 1002 ''Jane Smith'' ''5'' 18 4 22 (8182 / 100) (- 2),
      ledger_entry 1003 ''Alice Johnson'' ''5'' 15 5 20 75 (- 2)]"

definition test_current_week_content :: "att_row list" where
  "test_current_week_content =
     [\<lparr>student_number = Some 1004, name = ''Bob Brown'', grade = ''6'', hrs_attended = 17,
       hrs_absent = 3, hrs_possible = 20, ind_att_percent = Some 85\<rparr>]"

definition test_files :: fs where
  "test_files = [''base_file.csv'' \<mapsto> LedgerCsv test_base_file_content,
                 ''YTD Student Attendance Extract.csv'' \<mapsto> AttendanceCsv test_current_week_content]"



definition bob_white_result :: result_rec where
  "bob_white_result =
     (new_result 1004 (test_row 1004 ''Bob White'' ''6'' 78) 78)
       \<lparr>one_week_back_percent := Some (Some 85), below_90_2_weeks := Some True,
        trend_1_week := Some ''Down'', two_weeks_back_percent := Some 89,
        below_90_3_weeks := Some True, trend_2_weeks := Some ''Down''\<rparr>"

definition charlie_black_result :: result_rec where
  "charlie_black_result =
     (new_result 1005 (test_row 1005 ''Charlie Black'' ''6'' 91) 91)
       \<lparr>one_week_back_percent := Some (Some 92), below_90_2_weeks := Some False,
        trend_1_week := Some ''Down'', two_weeks_back_percent := Some 93,
        below_90_3_weeks := Some False, trend_2_weeks := Some ''Down''\<rparr>"







subsection \<open>Predicates used in the proofs\<close>

text \<open>
  \<open>primed\<close>: the first flag is what \<open>prime_results\<close> made it. \<open>consolidated_ok seen d\<close>:
  the dictionary \<open>d\<close> holds, for every student number among the rows \<open>seen\<close> so far, the
  sums over that student's rows, and the percentage of the sums wherever the possible
  hours are positive.
\<close>

definition primed :: "result_rec \<Rightarrow> bool" where
  "primed r \<longleftrightarrow> below_90_1_week r = (current_week_att_percent r < 90)"

definition rows_of :: "int \<Rightarrow> 'a att_row_scheme list \<Rightarrow> 'a att_row_scheme list" where
  "rows_of k rows = filter (\<lambda>r. student_number r = Some k) rows"

definition consolidated_entry :: "'a att_row_scheme list \<Rightarrow> int \<Rightarrow> att_row \<Rightarrow> bool" where
  "consolidated_entry seen k e \<longleftrightarrow>
     student_number e = Some k \<and>
     hrs_attended e = sum_list (map hrs_attended (rows_of k seen)) \<and>
     hrs_absent e = sum_list (map hrs_absent (rows_of k seen)) \<and>
     hrs_possible e = sum_list (map hrs_possible (rows_of k seen)) \<and>
     (hrs_possible e > 0 \<longrightarrow>
        ind_att_percent e = Some (py_round2 (hrs_attended e / hrs_possible e * 100)))"

definition consolidated_ok :: "'a att_row_scheme list \<Rightarrow> (int \<times> att_row) list \<Rightarrow> bool" where
  "consolidated_ok seen d \<longleftrightarrow>
     distinct (map fst d) \<and>
     fst ` set d = {k. Some k \<in> student_number ` set seen} \<and>
     (\<forall>(k, e) \<in> set d. consolidated_entry seen k e)"

section \<open>Properties\<close>

subsection \<open>Association lists\<close>

lemma update_set:
  "(k', v') \<in> set (AList.update k v al) \<Longrightarrow> (k', v') = (k, v) \<or> (k', v') \<in> set al"
  by (induction al) (auto split: if_splits)

lemma set_update_distinct:
  "distinct (map fst al) \<Longrightarrow>
     set (AList.update k v al) = insert (k, v) {(k', v') \<in> set al. k' \<noteq> k}"
  by (induction al) (auto simp: rev_image_eqI)

subsection \<open>The comparison loops change one student at a time\<close>

lemma compare_one_loop_other:
  "compare_one_loop cur owb v res = Inr res' \<Longrightarrow> Some k \<notin> student_number ` set cur
     \<Longrightarrow> map_of res' k = map_of res k"
proof (induction cur arbitrary: v res)
  case Nil
  then show ?case by simp
next
  case (Cons student rest)
  from Cons.prems(2) have nk: "student_number student \<noteq> Some k"
    and rest: "Some k \<notin> student_number ` set rest" by auto
  from Cons.prems(1) obtain sid v' r' where
    sid: "student_number student = Some sid"
    and step: "compare_one_loop rest owb v' (AList.update sid r' res) = Inr res'"
    by (auto simp: Let_def split: option.splits sum.splits if_splits)
  from Cons.IH[OF step rest] nk sid show ?case
    by (simp add: update_conv')
qed

lemma compare_one_loop_at:
  assumes "compare_one_loop cur owb v res = Inr res'"
    and "distinct (map student_number cur)"
    and "c \<in> set cur" and "student_number c = Some sid" and "ind_att_percent c = Some cp"
    and "find_student owb sid = Inr (Some ow)"
  shows "\<exists>r0. map_of res sid = Some r0 \<and>
           map_of res' sid = Some (r0\<lparr>one_week_back_percent := Some (ind_att_percent ow),
               below_90_2_weeks := Some (is_below_90_2_weeks cp (ind_att_percent ow)),
               trend_1_week := Some (trend_1 cp (ind_att_percent ow))\<rparr>)"
  using assms
proof (induction cur arbitrary: v res)
  case Nil
  then show ?case by simp
next
  case (Cons student rest)
  show ?case
  proof (cases "c = student")
    case True
    with Cons.prems(2,4) have notin: "Some sid \<notin> student_number ` set rest" by auto
    from Cons.prems(1,4,5,6) True obtain r0 where
      r0: "map_of res sid = Some r0"
      and step: "compare_one_loop rest owb (Some (ind_att_percent ow))
         (AList.update sid (r0\<lparr>one_week_back_percent := Some (ind_att_percent ow),
               below_90_2_weeks := Some (is_below_90_2_weeks cp (ind_att_percent ow)),
               trend_1_week := Some (trend_1 cp (ind_att_percent ow))\<rparr>) res) = Inr res'"
      by (auto simp: Let_def split: option.splits if_splits)
    from compare_one_loop_other[OF step notin] r0 show ?thesis
      by (simp add: update_conv')
  next
    case False
    with Cons.prems(3) have cin: "c \<in> set rest" by simp
    with Cons.prems(2,4) have ne: "student_number student \<noteq> Some sid"
      by (metis distinct.simps(2) image_eqI list.simps(9) set_map)
    from Cons.prems(1) obtain k v' r' where
      k: "student_number student = Some k"
      and step: "compare_one_loop rest owb v' (AList.update k r' res) = Inr res'"
      by (auto simp: Let_def split: option.splits sum.splits if_splits)
    from Cons.prems(2) have d: "distinct (map student_number rest)" by simp
    from Cons.IH[OF step d cin Cons.prems(4,5,6)] k ne show ?thesis
      by (simp add: update_conv')
  qed
qed

lemma compare_two_loop_other:
  "compare_two_loop cur twb res = Inr res' \<Longrightarrow> Some k \<notin> student_number ` set cur
     \<Longrightarrow> map_of res' k = map_of res k"
proof (induction cur arbitrary: res)
  case Nil
  then show ?case by simp
next
  case (Cons student rest)
  from Cons.prems(2) have nk: "student_number student \<noteq> Some k"
    and rest: "Some k \<notin> student_number ` set rest" by auto
  from Cons.prems(1) consider
    (skip) "compare_two_loop rest twb res = Inr res'"
  | (upd) sid r' where "student_number student = Some sid"
      "compare_two_loop rest twb (AList.update sid r' res) = Inr res'"
    by (auto simp: Let_def split: option.splits sum.splits if_splits)
  then show ?case
  proof cases
    case skip
    from Cons.IH[OF skip rest] show ?thesis .
  next
    case upd
    from Cons.IH[OF upd(2) rest] nk upd(1) show ?thesis
      by (simp add: update_conv')
  qed
qed

lemma compare_two_loop_at:
  assumes "compare_two_loop cur twb res = Inr res'"
    and "distinct (map student_number cur)"
    and "c \<in> set cur" and "student_number c = Some sid" and "ind_att_percent c = Some cp"
    and "find_student twb sid = Inr (Some tw)"
  shows "\<exists>r0 tp b. map_of res sid = Some r0 \<and> ind_att_percent tw = Some tp \<and>
           is_below_90_3_weeks cp sid (Some tp) res = Inr b \<and>
           map_of res' sid = Some (r0\<lparr>two_weeks_back_percent := Some tp,
               below_90_3_weeks := Some b,
               trend_2_weeks := Some (trend_2 cp tp)\<rparr>)"
  using assms
proof (induction cur arbitrary: res)
  case Nil
  then show ?case by simp
next
  case (Cons student rest)
  show ?case
  proof (cases "c = student")
    case True
    with Cons.prems(2,4) have notin: "Some sid \<notin> student_number ` set rest" by auto
    from Cons.prems(1,4,5,6) True obtain r0 tp b where
      r0: "map_of res sid = Some r0" and tp: "ind_att_percent tw = Some tp"
      and b: "is_below_90_3_weeks cp sid (Some tp) res = Inr b"
      and step: "compare_two_loop rest twb
         (AList.update sid (r0\<lparr>two_weeks_back_percent := Some tp,
               below_90_3_weeks := Some b,
               trend_2_weeks := Some (trend_2 cp tp)\<rparr>) res) = Inr res'"
      by (auto simp: Let_def split: option.splits sum.splits if_splits)
    from compare_two_loop_other[OF step notin] r0 tp b show ?thesis
      by (simp add: update_conv')
  next
    case False
    with Cons.prems(3) have cin: "c \<in> set rest" by simp
    with Cons.prems(2,4) have ne: "student_number student \<noteq> Some sid"
      by (metis distinct.simps(2) image_eqI list.simps(9) set_map)
    from Cons.prems(2) have d: "distinct (map student_number rest)" by simp
    from Cons.prems(1) consider
      (skip) "compare_two_loop rest twb res = Inr res'"
    | (upd) k r' where "student_number student = Some k"
        "compare_two_loop rest twb (AList.update k r' res) = Inr res'"
      by (auto simp: Let_def split: option.splits sum.splits if_splits)
    then show ?thesis
    proof cases
      case skip
      from Cons.IH[OF skip d cin Cons.prems(4,5,6)] show ?thesis .
    next
      case upd
      have same: "is_below_90_3_weeks cp sid x (AList.update k r' res)
                   = is_below_90_3_weeks cp sid x res" for x
        using ne upd(1) by (simp add: is_below_90_3_weeks_def update_conv')
      from Cons.IH[OF upd(2) d cin Cons.prems(4,5,6)] upd(1) ne show ?thesis
        by (simp add: update_conv' same)
    qed
  qed
qed

subsection \<open>The first flag is kept by every later stage\<close>

lemma prime_results_loop_primed:
  "(\<And>k r. (k, r) \<in> set results \<Longrightarrow> primed r) \<Longrightarrow>
     (k, r) \<in> set (prime_results_loop rows results) \<Longrightarrow> primed r"
proof (induction rows arbitrary: results)
  case Nil
  then show ?case by simp
next
  case (Cons student rest)
  show ?case
  proof (cases "student_number student")
    case None
    with Cons show ?thesis by auto
  next
    case (Some student_id)
    show ?thesis
    proof (cases "ind_att_percent student")
      case None
      with Some Cons show ?thesis by auto
    next
      case (Some p)
      have "primed r'" if "(k', r') \<in> set (AList.update student_id (new_result student_id student p) results)"
        for k' r'
        using update_set[OF that] Cons.prems(1) by (auto simp: primed_def new_result_def)
      with Cons.IH[of "AList.update student_id (new_result student_id student p) results"]
        Cons.prems(2) \<open>student_number student = Some student_id\<close> Some
      show ?thesis by auto
    qed
  qed
qed

lemma compare_one_loop_primed:
  "compare_one_loop cur owb v results = Inr results' \<Longrightarrow>
     (\<And>k r. (k, r) \<in> set results \<Longrightarrow> primed r) \<Longrightarrow>
     (k, r) \<in> set results' \<Longrightarrow> primed r"
proof (induction cur arbitrary: v results)
  case Nil
  then show ?case by simp
next
  case (Cons student rest)
  from Cons.prems(1) obtain sid v' r0 p where
    r0: "map_of results sid = Some r0"
    and step: "compare_one_loop rest owb v'
       (AList.update sid (r0\<lparr>one_week_back_percent := Some p,
           below_90_2_weeks := Some (is_below_90_2_weeks (the (ind_att_percent student)) p),
           trend_1_week := Some (trend_1 (the (ind_att_percent student)) p)\<rparr>) results) = Inr results'"
    by (auto simp: Let_def split: option.splits sum.splits if_splits)
  from r0 Cons.prems(2) have "primed r0" by (meson map_of_SomeD)
  then have "primed r'" if "(k', r') \<in> set (AList.update sid (r0\<lparr>one_week_back_percent := Some p,
           below_90_2_weeks := Some (is_below_90_2_weeks (the (ind_att_percent student)) p),
           trend_1_week := Some (trend_1 (the (ind_att_percent student)) p)\<rparr>) results)" for k' r'
    using update_set[OF that] Cons.prems(2) by (auto simp: primed_def)
  from Cons.IH[OF step this Cons.prems(3)] show ?case by simp
qed

lemma compare_two_loop_primed:
  "compare_two_loop cur twb results = Inr results' \<Longrightarrow>
     (\<And>k r. (k, r) \<in> set results \<Longrightarrow> primed r) \<Longrightarrow>
     (k, r) \<in> set results' \<Longrightarrow> primed r"
proof (induction cur arbitrary: results)
  case Nil
  then show ?case by simp
next
  case (Cons student rest)
  from Cons.prems(1) consider
    (skip) "compare_two_loop rest twb results = Inr results'"
  | (upd) sid r0 tp b t where "map_of results sid = Some r0"
      "compare_two_loop rest twb
         (AList.update sid (r0\<lparr>two_weeks_back_percent := Some tp, below_90_3_weeks := Some b,
               trend_2_weeks := Some t\<rparr>) results) = Inr results'"
    by (auto simp: Let_def split: option.splits sum.splits if_splits)
  then show ?case
  proof cases
    case skip
    from Cons.IH[OF skip Cons.prems(2) Cons.prems(3)] show ?thesis by simp
  next
    case upd
    from upd(1) Cons.prems(2) have "primed r0" by (meson map_of_SomeD)
    then have "primed r'" if "(k', r') \<in> set (AList.update sid
         (r0\<lparr>two_weeks_back_percent := Some tp, below_90_3_weeks := Some b,
               trend_2_weeks := Some t\<rparr>) results)" for k' r'
      using update_set[OF that] Cons.prems(2) by (auto simp: primed_def)
    from Cons.IH[OF upd(2) this Cons.prems(3)] show ?thesis by simp
  qed
qed

lemma flag_attendance_issues_primed:
  assumes "flag_attendance_issues cur owb twb = Inr results" and "(k, r) \<in> set results"
  shows "below_90_1_week r = (current_week_att_percent r < 90)"
proof -
  have p0: "primed r'" if "(k', r') \<in> set (prime_results cur)" for k' r'
    using prime_results_loop_primed[of "[]" k' r' cur] that by (simp add: prime_results_def)
  from assms(1) obtain res1 where
    one: "compare_one_week_back cur owb (prime_results cur) = Inr res1"
    and two: "compare_two_weeks_back cur twb res1 = Inr results"
    by (auto simp: flag_attendance_issues_def split: sum.splits)
  have p1: "primed r'" if "(k', r') \<in> set res1" for k' r'
    using one that p0 compare_one_loop_primed[of cur owb None "prime_results cur" res1 k' r']
    by (auto simp: compare_one_week_back_def split: if_splits)
  have "primed r"
    using two assms(2) p1 compare_two_loop_primed[of cur twb res1 results k r]
    by (auto simp: compare_two_weeks_back_def split: if_splits)
  then show ?thesis by (simp add: primed_def)
qed

lemma later_stages_keep_below_90_1_week:
  assumes "\<And>k r. (k, r) \<in> set results_dict \<Longrightarrow> primed r"
    and "(k, r) \<in> set (filter_unknown_schools (map_school_codes
            (process_additional_data total_school_days results_dict ps_data med_data medp_data)
            school_dict))"
  shows "primed r"
proof -
  have ps: "primed r'" if "(k', r') \<in> set (ps_loop rows res)"
    "\<And>k r. (k, r) \<in> set res \<Longrightarrow> primed r" for k' r' rows res
    using that
  proof (induction rows arbitrary: res)
    case Nil
    then show ?case by simp
  next
    case (Cons row rest)
    show ?case
    proof (cases "map_of res (ps_student_number row)")
      case None
      with Cons show ?thesis by (auto simp: Let_def)
    next
      case (Some r0)
      with Cons.prems(2) have "primed r0" by (meson map_of_SomeD)
      then have "primed r''" if "(k'', r'') \<in> set (AList.update (ps_student_number row)
          (r0\<lparr>attending_school := Some (ps_attending_school row),
              school_of_residence := Some (ps_school_of_residence row)\<rparr>) res)" for k'' r''
        using update_set[OF that] Cons.prems(2) by (auto simp: primed_def)
      with Cons.IH[of "AList.update (ps_student_number row)
          (r0\<lparr>attending_school := Some (ps_attending_school row),
              school_of_residence := Some (ps_school_of_residence row)\<rparr>) res"] Cons.prems(1) Some
      show ?thesis by (auto simp: Let_def)
    qed
  qed
  from assms(2) obtain r0 where
    "(k, r0) \<in> set (ps_loop ps_data results_dict)"
    and "below_90_1_week r = below_90_1_week r0"
    and "current_week_att_percent r = current_week_att_percent r0"
    by (auto simp: filter_unknown_schools_def map_school_codes_def process_additional_data_def
        add_med_fields_def Let_def)
  with ps[OF _ assms(1)] show ?thesis by (auto simp: primed_def)
qed

subsection \<open>What consolidate_attendance returns, when it returns\<close>

lemma rows_of_snoc_other:
  "student_number row = Some k' \<Longrightarrow> k \<noteq> k' \<Longrightarrow> rows_of k (seen @ [row]) = rows_of k seen"
  by (simp add: rows_of_def)

lemma rows_of_snoc_same:
  "student_number row = Some k \<Longrightarrow> rows_of k (seen @ [row]) = rows_of k seen @ [row]"
  by (simp add: rows_of_def)

lemma rows_of_unseen:
  "Some k \<notin> student_number ` set seen \<Longrightarrow> rows_of k seen = []"
  by (force simp: rows_of_def filter_empty_conv image_iff)

lemma consolidated_step:
  assumes ok: "consolidated_ok seen d"
    and sid: "student_number row = Some k"
    and entry: "entry = (case map_of d k of None \<Rightarrow> new_consolidated k row | Some e \<Rightarrow> e)"
    and summed: "summed = entry\<lparr>hrs_attended := hrs_attended entry + hrs_attended row,
                             hrs_absent := hrs_absent entry + hrs_absent row,
                             hrs_possible := hrs_possible entry + hrs_possible row\<rparr>"
    and p: "hrs_possible summed > 0 \<longrightarrow> p = hrs_attended summed / hrs_possible summed * 100"
  shows "consolidated_ok (seen @ [row])
           (AList.update k (summed\<lparr>ind_att_percent := Some (py_round2 p)\<rparr>) d)"
proof -
  from ok have dist: "distinct (map fst d)"
    and keys: "fst ` set d = {k. Some k \<in> student_number ` set seen}"
    and entries: "\<And>k' e. (k', e) \<in> set d \<Longrightarrow> consolidated_entry seen k' e"
    by (auto simp: consolidated_ok_def)
  have entry_sums: "student_number entry = Some k \<and>
      hrs_attended entry = sum_list (map hrs_attended (rows_of k seen)) \<and>
      hrs_absent entry = sum_list (map hrs_absent (rows_of k seen)) \<and>
      hrs_possible entry = sum_list (map hrs_possible (rows_of k seen))"
  proof (cases "map_of d k")
    case None
    then have "k \<notin> fst ` set d" by (simp add: map_of_eq_None_iff)
    with keys have "rows_of k seen = []" by (auto intro: rows_of_unseen)
    with None entry show ?thesis by (simp add: new_consolidated_def)
  next
    case (Some e)
    then have "(k, e) \<in> set d" by (rule map_of_SomeD)
    from entries[OF this] Some entry show ?thesis by (simp add: consolidated_entry_def)
  qed
  have new_entry: "consolidated_entry (seen @ [row]) k (summed\<lparr>ind_att_percent := Some (py_round2 p)\<rparr>)"
    using entry_sums summed p sid by (simp add: consolidated_entry_def rows_of_snoc_same)
  have old_entries: "consolidated_entry (seen @ [row]) k' e" if "(k', e) \<in> set d" "k' \<noteq> k" for k' e
    using entries[OF that(1)] that(2) sid by (simp add: consolidated_entry_def rows_of_snoc_other)
  have d1: "distinct (map fst (AList.update k (summed\<lparr>ind_att_percent := Some (py_round2 p)\<rparr>) d))"
    using dist by (rule distinct_update)
  have k1: "fst ` set (AList.update k (summed\<lparr>ind_att_percent := Some (py_round2 p)\<rparr>) d)
      = {k'. Some k' \<in> student_number ` set (seen @ [row])}"
    using keys sid by (auto simp: dom_update)
  from d1 k1 new_entry old_entries show ?thesis
    unfolding consolidated_ok_def set_update_distinct[OF dist] by auto
qed

lemma consolidate_loop_ok:
  "consolidate_loop rows d ap = Inr d' \<Longrightarrow> consolidated_ok seen d \<Longrightarrow>
     consolidated_ok (seen @ rows) d'"
proof (induction rows arbitrary: seen d ap)
  case Nil
  then show ?case by simp
next
  case (Cons row rest)
  from Cons.prems(1) obtain k where k: "student_number row = Some k"
    by (auto split: option.splits)
  define entry where "entry = (case map_of d k of None \<Rightarrow> new_consolidated k row | Some e \<Rightarrow> e)"
  define summed where "summed = entry\<lparr>hrs_attended := hrs_attended entry + hrs_attended row,
                             hrs_absent := hrs_absent entry + hrs_absent row,
                             hrs_possible := hrs_possible entry + hrs_possible row\<rparr>"
  define ap' where "ap' = (if hrs_possible summed > 0
      then Some (hrs_attended summed / hrs_possible summed * 100) else ap)"
  have unfolded: "consolidate_loop (row # rest) d ap =
      (case ap' of
         None \<Rightarrow> Inl UnboundLocalError
       | Some p \<Rightarrow> consolidate_loop rest
           (AList.update k (summed\<lparr>ind_att_percent := Some (py_round2 p)\<rparr>) d) ap')"
    using k unfolding ap'_def summed_def entry_def by (simp add: Let_def)
  with Cons.prems(1) obtain p where p: "ap' = Some p"
    and step: "consolidate_loop rest
        (AList.update k (summed\<lparr>ind_att_percent := Some (py_round2 p)\<rparr>) d) ap' = Inr d'"
    by (cases ap') auto
  from p have "hrs_possible summed > 0 \<longrightarrow> p = hrs_attended summed / hrs_possible summed * 100"
    by (auto simp: ap'_def)
  from consolidated_step[OF Cons.prems(2) k entry_def summed_def this]
  have "consolidated_ok (seen @ [row])
           (AList.update k (summed\<lparr>ind_att_percent := Some (py_round2 p)\<rparr>) d)" .
  from Cons.IH[OF step this] show ?case by simp
qed

lemma consolidate_attendance_when_it_returns:
  assumes "consolidate_attendance rows = Inr out"
  shows "distinct (map student_number out)"
    and "r \<in> set out \<Longrightarrow>
           \<exists>k. student_number r = Some k \<and> Some k \<in> student_number ` set rows \<and>
               hrs_attended r = sum_list (map hrs_attended (rows_of k rows)) \<and>
               hrs_absent r = sum_list (map hrs_absent (rows_of k rows)) \<and>
               hrs_possible r = sum_list (map hrs_possible (rows_of k rows)) \<and>
               hrs_possible r > 0 \<and>
               ind_att_percent r = Some (py_round2 (hrs_attended r / hrs_possible r * 100))"
    and "Some k \<in> student_number ` set rows \<Longrightarrow>
           sum_list (map hrs_possible (rows_of k rows)) > 0 \<Longrightarrow>
           \<exists>r \<in> set out. student_number r = Some k"
proof -
  from assms obtain d where loop: "consolidate_loop rows [] None = Inr d"
    and out: "out = filter (\<lambda>data. hrs_possible data > 0) (map snd d)"
    by (auto simp: consolidate_attendance_def split: sum.splits)
  have "consolidated_ok [] ([] :: (int \<times> att_row) list)" by (simp add: consolidated_ok_def)
  from consolidate_loop_ok[OF loop this] have ok: "consolidated_ok rows d" by simp
  then have dist: "distinct (map fst d)"
    and keys: "fst ` set d = {k. Some k \<in> student_number ` set rows}"
    and entries: "\<And>k e. (k, e) \<in> set d \<Longrightarrow> consolidated_entry rows k e"
    by (auto simp: consolidated_ok_def)
  have "map (student_number \<circ> snd) d = map (Some \<circ> fst) d"
    using entries by (auto simp: consolidated_entry_def)
  with dist have "distinct (map student_number (map snd d))"
    by (simp add: distinct_map inj_on_def)
  then show "distinct (map student_number out)"
    unfolding out by (simp add: distinct_map_filter)
  show "\<exists>k. student_number r = Some k \<and> Some k \<in> student_number ` set rows \<and>
               hrs_attended r = sum_list (map hrs_attended (rows_of k rows)) \<and>
               hrs_absent r = sum_list (map hrs_absent (rows_of k rows)) \<and>
               hrs_possible r = sum_list (map hrs_possible (rows_of k rows)) \<and>
               hrs_possible r > 0 \<and>
               ind_att_percent r = Some (py_round2 (hrs_attended r / hrs_possible r * 100))"
    if "r \<in> set out"
  proof -
    from that out obtain k where kr: "(k, r) \<in> set d" and pos: "hrs_possible r > 0" by auto
    from kr keys have "Some k \<in> student_number ` set rows" by force
    with entries[OF kr] pos show ?thesis by (auto simp: consolidated_entry_def)
  qed
  show "\<exists>r \<in> set out. student_number r = Some k"
    if "Some k \<in> student_number ` set rows" "sum_list (map hrs_possible (rows_of k rows)) > 0"
  proof -
    from that(1) keys obtain e where ke: "(k, e) \<in> set d" by force
    from entries[OF ke] that(2) have "hrs_possible e > 0" "student_number e = Some k"
      by (simp_all add: consolidated_entry_def)
    with ke out show ?thesis by force
  qed
qed

lemma consolidate_loop_returns:
  "ap \<noteq> None \<Longrightarrow> \<forall>r \<in> set rows. student_number r \<noteq> None \<Longrightarrow>
     \<exists>d'. consolidate_loop rows d ap = Inr d'"
  by (induction rows arbitrary: d ap) (auto simp: Let_def)

lemma consolidate_attendance_returns:
  assumes "\<forall>r \<in> set rows. student_number r \<noteq> None"
    and "rows \<noteq> [] \<longrightarrow> hrs_possible (hd rows) > 0"
  shows "\<exists>out. consolidate_attendance rows = Inr out"
proof (cases rows)
  case Nil
  then show ?thesis by (simp add: consolidate_attendance_def)
next
  case (Cons row rest)
  with assms obtain k where k: "student_number row = Some k" and pos: "hrs_possible row > 0"
    by auto
  have "\<exists>d'. consolidate_loop (row # rest) [] None = Inr d'"
    using k pos assms(1) Cons
    by (simp add: Let_def new_consolidated_def consolidate_loop_returns)
  with Cons show ?thesis by (auto simp: consolidate_attendance_def)
qed


subsection \<open>Files\<close>

lemma os_path_join_length:
  "length (os_path_join d f) = length (os_path_join d []) + length f"
  by (simp add: os_path_join_def)

lemma backup_file_path_neq: "backup_file_path p timestamp \<noteq> path_of p"
proof
  assume "backup_file_path p timestamp = path_of p"
  then have "length (backup_file_path p timestamp) = length (path_of p)" by simp
  then show False
    unfolding backup_file_path_def path_of_def
    by (subst (asm) os_path_join_length, subst (asm) (2) os_path_join_length) simp
qed






lemma path_of_main_base_file: "path_of main_base_file = ''base_file.csv''"
  by (simp add: path_of_def main_base_file_def os_path_join_def)

lemma backup_file_path_main_base_file:
  "backup_file_path main_base_file timestamp = ''base_file_'' @ timestamp @ ''.csv''"
  by (simp add: backup_file_path_def main_base_file_def os_path_join_def)

lemma flag_attendance_issues_empty: "flag_attendance_issues [] one_week_back two_weeks_back = Inr []"
  by (simp add: flag_attendance_issues_def prime_results_def compare_one_week_back_def
      compare_two_weeks_back_def)

subsection \<open>The comparisons return when every student has rows in both weeks\<close>

lemma prime_results_loop_keys:
  "fst ` set (prime_results_loop rows results) =
     fst ` set results \<union>
     {k. \<exists>c \<in> set rows. student_number c = Some k \<and> ind_att_percent c \<noteq> None}"
proof (induction rows arbitrary: results)
  case Nil
  then show ?case by simp
next
  case (Cons student rest)
  show ?case
  proof (cases "student_number student")
    case None
    with Cons show ?thesis by auto
  next
    case (Some k)
    show ?thesis
    proof (cases "ind_att_percent student")
      case None
      with Some Cons show ?thesis by auto
    next
      case (Some p)
      with \<open>student_number student = Some k\<close>
        Cons[of "AList.update k (new_result k student p) results"]
      show ?thesis by (auto simp: dom_update)
    qed
  qed
qed

lemma compare_one_loop_returns:
  assumes "\<forall>c \<in> set cur. \<exists>k cp ow. student_number c = Some k \<and> ind_att_percent c = Some cp \<and>
             find_student owb k = Inr (Some ow) \<and> map_of results k \<noteq> None"
  shows "\<exists>results'. compare_one_loop cur owb v results = Inr results' \<and>
           fst ` set results' = fst ` set results \<and>
           (\<forall>c \<in> set cur. \<forall>k ow. student_number c = Some k \<longrightarrow>
              find_student owb k = Inr (Some ow) \<longrightarrow>
              (\<exists>r. map_of results' k = Some r \<and>
                   one_week_back_percent r = Some (ind_att_percent ow)))"
  using assms
proof (induction cur arbitrary: v results)
  case Nil
  then show ?case by simp
next
  case (Cons student rest)
  from Cons.prems obtain k cp ow r0 where
    k: "student_number student = Some k" and cp: "ind_att_percent student = Some cp"
    and ow: "find_student owb k = Inr (Some ow)" and r0: "map_of results k = Some r0"
    by auto
  define r1 where "r1 = r0\<lparr>one_week_back_percent := Some (ind_att_percent ow),
       below_90_2_weeks := Some (is_below_90_2_weeks cp (ind_att_percent ow)),
       trend_1_week := Some (trend_1 cp (ind_att_percent ow))\<rparr>"
  have unfolded: "compare_one_loop (student # rest) owb v results
      = compare_one_loop rest owb (Some (ind_att_percent ow)) (AList.update k r1 results)"
    using k cp ow r0 by (simp add: r1_def Let_def)
  have keys1: "fst ` set (AList.update k r1 results) = fst ` set results"
    using r0 by (auto simp: dom_update dest: map_of_SomeD intro: rev_image_eqI)
  have "\<forall>c \<in> set rest. \<exists>k' cp' ow'. student_number c = Some k' \<and> ind_att_percent c = Some cp' \<and>
             find_student owb k' = Inr (Some ow') \<and> map_of (AList.update k r1 results) k' \<noteq> None"
    using Cons.prems by (fastforce simp: update_conv')
  from Cons.IH[OF this, of "Some (ind_att_percent ow)"] obtain results' where
    run: "compare_one_loop rest owb (Some (ind_att_percent ow)) (AList.update k r1 results)
            = Inr results'"
    and keys: "fst ` set results' = fst ` set (AList.update k r1 results)"
    and rest: "\<forall>c \<in> set rest. \<forall>k ow. student_number c = Some k \<longrightarrow>
              find_student owb k = Inr (Some ow) \<longrightarrow>
              (\<exists>r. map_of results' k = Some r \<and>
                   one_week_back_percent r = Some (ind_att_percent ow))"
    by blast
  have head: "\<exists>r. map_of results' k = Some r \<and>
                   one_week_back_percent r = Some (ind_att_percent ow)"
  proof (cases "Some k \<in> student_number ` set rest")
    case True
    with rest ow show ?thesis by auto
  next
    case False
    from compare_one_loop_other[OF run False] show ?thesis
      by (simp add: update_conv' r1_def)
  qed
  from unfolded run keys keys1 rest head k ow show ?case by auto
qed

lemma compare_two_loop_returns:
  assumes "\<forall>c \<in> set cur. \<exists>k cp tw tp r op. student_number c = Some k \<and>
             ind_att_percent c = Some cp \<and> find_student twb k = Inr (Some tw) \<and>
             ind_att_percent tw = Some tp \<and> map_of results k = Some r \<and>
             one_week_back_percent r = Some (Some op)"
  shows "\<exists>results'. compare_two_loop cur twb results = Inr results'"
  using assms
proof (induction cur arbitrary: results)
  case Nil
  then show ?case by simp
next
  case (Cons student rest)
  from Cons.prems obtain k cp tw tp r0 op where
    k: "student_number student = Some k" and cp: "ind_att_percent student = Some cp"
    and tw: "find_student twb k = Inr (Some tw)" and tp: "ind_att_percent tw = Some tp"
    and r0: "map_of results k = Some r0" and op: "one_week_back_percent r0 = Some (Some op)"
    by auto
  define r1 where "r1 = r0\<lparr>two_weeks_back_percent := Some tp,
       below_90_3_weeks := Some (cp < 90 \<and> op < 90 \<and> tp < 90),
       trend_2_weeks := Some (trend_2 cp tp)\<rparr>"
  have flag: "is_below_90_3_weeks cp k (Some tp) results = Inr (cp < 90 \<and> op < 90 \<and> tp < 90)"
    using r0 op by (simp add: is_below_90_3_weeks_def)
  have unfolded: "compare_two_loop (student # rest) twb results
      = compare_two_loop rest twb (AList.update k r1 results)"
    using k cp tw tp r0 flag by (simp add: r1_def Let_def)
  have "\<forall>c \<in> set rest. \<exists>k' cp tw tp r op. student_number c = Some k' \<and>
             ind_att_percent c = Some cp \<and> find_student twb k' = Inr (Some tw) \<and>
             ind_att_percent tw = Some tp \<and> map_of (AList.update k r1 results) k' = Some r \<and>
             one_week_back_percent r = Some (Some op)"
  proof
    fix c assume "c \<in> set rest"
    with Cons.prems obtain k' cp' tw' tp' r' op' where
      c: "student_number c = Some k'" "ind_att_percent c = Some cp'"
      "find_student twb k' = Inr (Some tw')" "ind_att_percent tw' = Some tp'"
      "map_of results k' = Some r'" "one_week_back_percent r' = Some (Some op')"
      by fastforce
    show "\<exists>k' cp tw tp r op. student_number c = Some k' \<and>
             ind_att_percent c = Some cp \<and> find_student twb k' = Inr (Some tw) \<and>
             ind_att_percent tw = Some tp \<and> map_of (AList.update k r1 results) k' = Some r \<and>
             one_week_back_percent r = Some (Some op)"
    proof (cases "k' = k")
      case True
      with c op show ?thesis by (auto simp: update_conv' r1_def)
    next
      case False
      with c show ?thesis by (auto simp: update_conv')
    qed
  qed
  from Cons.IH[OF this] unfolded show ?case by simp
qed

lemma flag_attendance_issues_returns:
  assumes "\<forall>c \<in> set cur. \<exists>k cp ow op tw tp. student_number c = Some k \<and>
             ind_att_percent c = Some cp \<and>
             find_student owb k = Inr (Some ow) \<and> ind_att_percent ow = Some op \<and>
             find_student twb k = Inr (Some tw) \<and> ind_att_percent tw = Some tp"
  shows "\<exists>results. flag_attendance_issues cur owb twb = Inr results"
proof (cases "cur = []")
  case True
  then show ?thesis by (simp add: flag_attendance_issues_empty)
next
  case False
  then obtain c where "c \<in> set cur" by (cases cur) auto
  with assms have ne: "owb \<noteq> []" "twb \<noteq> []" by fastforce+
  have keys0: "map_of (prime_results cur) k \<noteq> None"
    if "c \<in> set cur" "student_number c = Some k" "ind_att_percent c = Some cp" for c k cp
  proof -
    from that have "k \<in> fst ` set (prime_results cur)"
      unfolding prime_results_def prime_results_loop_keys by auto
    then show ?thesis by (simp add: map_of_eq_None_iff)
  qed
  have "\<forall>c \<in> set cur. \<exists>k cp ow. student_number c = Some k \<and> ind_att_percent c = Some cp \<and>
             find_student owb k = Inr (Some ow) \<and> map_of (prime_results cur) k \<noteq> None"
    using assms keys0 by fastforce
  from compare_one_loop_returns[OF this, of None] obtain res1 where
    one: "compare_one_loop cur owb None (prime_results cur) = Inr res1"
    and after: "\<forall>c \<in> set cur. \<forall>k ow. student_number c = Some k \<longrightarrow>
              find_student owb k = Inr (Some ow) \<longrightarrow>
              (\<exists>r. map_of res1 k = Some r \<and>
                   one_week_back_percent r = Some (ind_att_percent ow))"
    by blast
  have "\<forall>c \<in> set cur. \<exists>k cp tw tp r op. student_number c = Some k \<and>
             ind_att_percent c = Some cp \<and> find_student twb k = Inr (Some tw) \<and>
             ind_att_percent tw = Some tp \<and> map_of res1 k = Some r \<and>
             one_week_back_percent r = Some (Some op)"
  proof
    fix c assume c: "c \<in> set cur"
    with assms obtain k cp ow op tw tp where
      f: "student_number c = Some k" "ind_att_percent c = Some cp"
      "find_student owb k = Inr (Some ow)" "ind_att_percent ow = Some op"
      "find_student twb k = Inr (Some tw)" "ind_att_percent tw = Some tp"
      by fastforce
    from after c f(1,3) obtain r where "map_of res1 k = Some r"
      "one_week_back_percent r = Some (ind_att_percent ow)" by blast
    with f show "\<exists>k cp tw tp r op. student_number c = Some k \<and>
             ind_att_percent c = Some cp \<and> find_student twb k = Inr (Some tw) \<and>
             ind_att_percent tw = Some tp \<and> map_of res1 k = Some r \<and>
             one_week_back_percent r = Some (Some op)"
      by auto
  qed
  from compare_two_loop_returns[OF this] obtain res2 where
    "compare_two_loop cur twb res1 = Inr res2" by blast
  with one ne show ?thesis
    by (simp add: flag_attendance_issues_def compare_one_week_back_def compare_two_weeks_back_def)
qed

subsection \<open>The repository's tests, on the model\<close>

text \<open>
  The expected values of \<open>TestConsolidateAttendance\<close> and of \<open>TestCompareOneWeekBack\<close>
  and \<open>TestCompareTwoWeeksBack\<close> in \<open>testing.py\<close>.
\<close>

lemma test_consolidate_attendance:
  "consolidate_attendance test_attendance_data =
     Inr [\<lparr>student_number = Some 1001, name = ''John Doe'', grade = ''5'', hrs_attended = 20,
           hrs_absent = 4, hrs_possible = 22, ind_att_percent = Some (9091 / 100)\<rparr>,
          \<lparr>student_number = Some 1002, name = ''Jane Smith'', grade = ''5'', hrs_attended = 18,
           hrs_absent = 4, hrs_possible = 22, ind_att_percent = Some (8182 / 100)\<rparr>,
          \<lparr>student_number = Some 1003, name = ''Emily White'', grade = ''6'', hrs_attended = 20,
           hrs_absent = 0, hrs_possible = 20, ind_att_percent = Some 100\<rparr>]"
  by code_simp

lemma test_compare_two_weeks_back:
  "map (\<lambda>(k, r). (k, one_week_back_percent r, below_90_2_weeks r, trend_1_week r,
                    two_weeks_back_percent r, below_90_3_weeks r, trend_2_weeks r))
     (case flag_attendance_issues test_current_week_data test_one_week_back_data
             test_two_weeks_back_data of Inl e \<Rightarrow> [] | Inr results \<Rightarrow> results)
   = [(1001, Some (Some (6667 / 100)), Some True, Some ''Up'', Some 50, Some True, Some ''Up''),
      (1002, Some (Some (7273 / 100)), Some True, Some ''Up'', Some 75, Some True, Some ''Up''),
      (1003, Some (Some 95), Some False, Some ''Down'', Some 92, Some False, Some ''Down''),
      (1004, Some (Some 85), Some True, Some ''Down'', Some 89, Some True, Some ''Down''),
      (1005, Some (Some 92), Some False, Some ''Down'', Some 93, Some False, Some ''Down'')]"
  by code_simp

subsection \<open>Reports and counts\<close>









lemma test_run_returns:
  "case compare_one_week_back test_current_week_data test_one_week_back_data
          (prime_results test_current_week_data) of
     Inl e \<Rightarrow> False
   | Inr res1 \<Rightarrow>
       (case compare_two_weeks_back test_current_week_data test_two_weeks_back_data res1 of
          Inl e \<Rightarrow> False | Inr res2 \<Rightarrow> True)"
  by code_simp

subsection \<open>C1: the below-90 flags are conjunctive\<close>

text \<open>
  C1. Let the two comparisons run to their end on a current snapshot with distinct
  student numbers, starting from any results dictionary. For a student of the current
  snapshot with percentage \<open>cp\<close> whose first row one week back has percentage \<open>op\<close> and
  whose first row two weeks back has percentage \<open>tp\<close>: \<open>below_90_2_weeks\<close> is
  \<open>cp < 90 \<and> op < 90\<close>, \<open>below_90_3_weeks\<close> is \<open>cp < 90 \<and> op < 90 \<and> tp < 90\<close>, and the
  latter is the value of the flag expression that reads \<open>one_week_back_percent\<close> from
  the results of the one-week comparison.
\<close>

theorem below_90_flags_conjunctive:
  assumes one: "compare_one_week_back cur owb res0 = Inr res1"
    and two: "compare_two_weeks_back cur twb res1 = Inr res2"
    and dist: "distinct (map student_number cur)"
    and c: "c \<in> set cur" "student_number c = Some sid" "ind_att_percent c = Some cp"
    and ow: "find_student owb sid = Inr (Some ow)" "ind_att_percent ow = Some op"
    and tw: "find_student twb sid = Inr (Some tw)" "ind_att_percent tw = Some tp"
  shows "\<exists>r1 r2. map_of res1 sid = Some r1 \<and> map_of res2 sid = Some r2 \<and>
           one_week_back_percent r1 = Some (Some op) \<and>
           below_90_2_weeks r2 = Some (cp < 90 \<and> op < 90) \<and>
           below_90_3_weeks r2 = Some (cp < 90 \<and> op < 90 \<and> tp < 90) \<and>
           is_below_90_3_weeks cp sid (Some tp) res1 = Inr (cp < 90 \<and> op < 90 \<and> tp < 90)"
proof -
  from ow(1) have owb_ne: "owb \<noteq> []" by auto
  from tw(1) have twb_ne: "twb \<noteq> []" by auto
  from one owb_ne have l1: "compare_one_loop cur owb None res0 = Inr res1"
    by (simp add: compare_one_week_back_def)
  from two twb_ne have l2: "compare_two_loop cur twb res1 = Inr res2"
    by (simp add: compare_two_weeks_back_def)
  from compare_one_loop_at[OF l1 dist c ow(1)] ow(2) obtain r0 where
    r1: "map_of res1 sid = Some (r0\<lparr>one_week_back_percent := Some (Some op),
               below_90_2_weeks := Some (is_below_90_2_weeks cp (Some op)),
               trend_1_week := Some (trend_1 cp (Some op))\<rparr>)"
    by auto
  from compare_two_loop_at[OF l2 dist c tw(1)] tw(2) r1 obtain b where
    b: "is_below_90_3_weeks cp sid (Some tp) res1 = Inr b"
    and r2: "map_of res2 sid = Some (r0\<lparr>one_week_back_percent := Some (Some op),
               below_90_2_weeks := Some (is_below_90_2_weeks cp (Some op)),
               trend_1_week := Some (trend_1 cp (Some op)),
               two_weeks_back_percent := Some tp,
               below_90_3_weeks := Some b,
               trend_2_weeks := Some (trend_2 cp tp)\<rparr>)"
    by auto
  from b r1 have bval: "b = (cp < 90 \<and> op < 90 \<and> tp < 90)"
    by (auto simp: is_below_90_3_weeks_def split: if_splits)
  from r1 r2 b bval show ?thesis
    by (simp add: is_below_90_2_weeks_def)
qed

theorem below_90_flags_conjunctive_witness:
  "\<exists>res1 res2 r1 r2.
     compare_one_week_back test_current_week_data test_one_week_back_data
       (prime_results test_current_week_data) = Inr res1 \<and>
     compare_two_weeks_back test_current_week_data test_two_weeks_back_data res1 = Inr res2 \<and>
     distinct (map student_number test_current_week_data) \<and>
     test_row 1004 ''Bob White'' ''6'' 78 \<in> set test_current_week_data \<and>
     find_student test_one_week_back_data 1004 = Inr (Some (test_row 1004 ''Bob White'' ''6'' 85)) \<and>
     find_student test_two_weeks_back_data 1004 = Inr (Some (test_row 1004 ''Bob White'' ''6'' 89)) \<and>
     map_of res1 1004 = Some r1 \<and> map_of res2 1004 = Some r2 \<and>
     one_week_back_percent r1 = Some (Some 85) \<and>
     below_90_2_weeks r2 = Some True \<and> below_90_3_weeks r2 = Some True"
proof -
  from test_run_returns obtain res1 res2 where
    one: "compare_one_week_back test_current_week_data test_one_week_back_data
            (prime_results test_current_week_data) = Inr res1"
    and two: "compare_two_weeks_back test_current_week_data test_two_weeks_back_data res1 = Inr res2"
    by (auto split: sum.splits)
  have dist: "distinct (map student_number test_current_week_data)"
    by (simp add: test_current_week_data_def test_row_def)
  have c: "test_row 1004 ''Bob White'' ''6'' 78 \<in> set test_current_week_data"
    "student_number (test_row 1004 ''Bob White'' ''6'' 78) = Some 1004"
    "ind_att_percent (test_row 1004 ''Bob White'' ''6'' 78) = Some 78"
    by (simp_all add: test_current_week_data_def test_row_def)
  have ow: "find_student test_one_week_back_data 1004 = Inr (Some (test_row 1004 ''Bob White'' ''6'' 85))"
    "ind_att_percent (test_row 1004 ''Bob White'' ''6'' 85) = Some 85"
    by (simp_all add: test_one_week_back_data_def test_row_def)
  have tw: "find_student test_two_weeks_back_data 1004 = Inr (Some (test_row 1004 ''Bob White'' ''6'' 89))"
    "ind_att_percent (test_row 1004 ''Bob White'' ''6'' 89) = Some 89"
    by (simp_all add: test_two_weeks_back_data_def test_row_def)
  from below_90_flags_conjunctive[OF one two dist c ow tw] one two dist c(1) ow(1) tw(1)
  show ?thesis by auto
qed

subsection \<open>C2: consolidation\<close>

text \<open>
  C2. The claim is that \<open>consolidate_attendance\<close> returns, for every snapshot, one
  record per student with the summed hours and the percentage of the sums, leaving out
  the students without possible hours. On a snapshot whose first row has no possible
  hours it does not return: the last statement of the loop body reads
  \<open>attendance_percentage\<close> before any row has bound it. (Whenever it returns, the result
  is the claimed one: \<open>consolidate_attendance_when_it_returns\<close>.)
\<close>

theorem consolidate_attendance_zero_hours_first:
  "consolidate_attendance [zero_hours_row] = Inl UnboundLocalError"
  by (simp add: consolidate_attendance_def zero_hours_row_def new_consolidated_def)

subsection \<open>C3: the rollover of the base file\<close>




subsection \<open>C4: students without a row one week back\<close>

text \<open>
  C4. The claim is that a current student without a row one week back gets
  \<open>one_week_back_percent = None\<close>, trend \<open>N/A\<close> and \<open>below_90_2_weeks = False\<close>. The loop
  assigns \<open>one_week_att_percent\<close> only when a row was found, so such a student gets the
  percentage of the student before (here 70, trend \<open>Up\<close>, flag \<open>True\<close>), and when such a
  student comes first the function raises \<open>UnboundLocalError\<close>.
\<close>

theorem compare_one_week_back_unmatched_student:
  "find_student unmatched_one_week_back_data 1002 = Inr None \<and>
   (\<exists>res r. compare_one_week_back unmatched_current_week_data unmatched_one_week_back_data
               (prime_results unmatched_current_week_data) = Inr res \<and>
            map_of res 1002 = Some r \<and>
            one_week_back_percent r = Some (Some 70) \<and>
            trend_1_week r = Some ''Up'' \<and>
            below_90_2_weeks r = Some True) \<and>
   compare_one_week_back (rev unmatched_current_week_data) unmatched_one_week_back_data
     (prime_results (rev unmatched_current_week_data)) = Inl UnboundLocalError"
proof -
  have none: "find_student unmatched_one_week_back_data 1002 = Inr None"
    by (simp add: unmatched_one_week_back_data_def test_row_def)
  have "case compare_one_week_back unmatched_current_week_data unmatched_one_week_back_data
               (prime_results unmatched_current_week_data) of
          Inl e \<Rightarrow> False
        | Inr res \<Rightarrow>
            (case map_of res 1002 of
               None \<Rightarrow> False
             | Some r \<Rightarrow> one_week_back_percent r = Some (Some 70) \<and>
                         trend_1_week r = Some ''Up'' \<and> below_90_2_weeks r = Some True)"
    by code_simp
  then have stale: "\<exists>res r. compare_one_week_back unmatched_current_week_data
               unmatched_one_week_back_data (prime_results unmatched_current_week_data) = Inr res \<and>
            map_of res 1002 = Some r \<and>
            one_week_back_percent r = Some (Some 70) \<and>
            trend_1_week r = Some ''Up'' \<and>
            below_90_2_weeks r = Some True"
    by (auto split: sum.splits option.splits)
  have unbound: "compare_one_week_back (rev unmatched_current_week_data)
       unmatched_one_week_back_data (prime_results (rev unmatched_current_week_data))
     = Inl UnboundLocalError"
    by code_simp
  from none stale unbound show ?thesis by blast
qed

subsection \<open>C5: backup before mutation\<close>

text \<open>
  C5. When the base file exists and testing mode is off, then in every run of
  \<open>update_base_file\<close> (whether the copy succeeds or not, whatever the file holds): at
  every write that changes the base file, the writes performed before it have left the
  base file as it was and have put its content into the time-stamped backup file, which
  is a different file.
\<close>

theorem backup_before_mutate:
  assumes "base_file_exists files (path_of p)"
  shows "\<forall>pre op post.
           fst (update_base_file False copy_ok timestamp files current_week_data p column_mapping)
             = pre @ op # post \<and>
           apply_io (run_io pre files) op (path_of p) \<noteq> run_io pre files (path_of p) \<longrightarrow>
           run_io pre files (backup_file_path p timestamp) = files (path_of p) \<and>
           files (path_of p) \<noteq> None \<and>
           run_io pre files (path_of p) = files (path_of p) \<and>
           backup_file_path p timestamp \<noteq> path_of p"
proof (intro allI impI, elim conjE)
  fix pre op post
  assume split: "fst (update_base_file False copy_ok timestamp files current_week_data p column_mapping)
             = pre @ op # post"
    and mutates: "apply_io (run_io pre files) op (path_of p) \<noteq> run_io pre files (path_of p)"
  have ops: "fst (update_base_file False copy_ok timestamp files current_week_data p column_mapping)
               \<in> {[], create_backup p timestamp} \<or>
             (\<exists>rows'. fst (update_base_file False copy_ok timestamp files current_week_data p column_mapping)
                = create_backup p timestamp @ [ToCsv (path_of p) rows'])"
    using assms
    by (auto simp: update_base_file_def Let_def split: sum.splits dataframe.splits)
  have copy_keeps: "apply_io files (CopyFile (path_of p) (backup_file_path p timestamp)) (path_of p)
      = files (path_of p)"
    using backup_file_path_neq[of p timestamp] by simp
  from ops split mutates copy_keeps have pre: "pre = create_backup p timestamp"
    by (auto simp: create_backup_def Cons_eq_append_conv append_eq_Cons_conv run_io_def)
  from assms have ex: "files (path_of p) \<noteq> None" by (simp add: base_file_exists_def)
  from pre ex backup_file_path_neq[of p timestamp]
  show "run_io pre files (backup_file_path p timestamp) = files (path_of p) \<and>
           files (path_of p) \<noteq> None \<and>
           run_io pre files (path_of p) = files (path_of p) \<and>
           backup_file_path p timestamp \<noteq> path_of p"
    by (auto simp: run_io_def create_backup_def)
qed

theorem backup_before_mutate_witness:
  "base_file_exists test_files (path_of main_base_file) \<and>
   fst (update_base_file False True ''11-04-12-00-00'' test_files test_current_week_content
          main_base_file [])
     = [CopyFile ''base_file.csv'' ''base_file_11-04-12-00-00.csv''] @
       ToCsv (path_of main_base_file)
         [ledger_entry 1001 ''John Doe'' ''5'' 20 2 22 (9091 / 100) (- 2),
          ledger_entry 1004 ''Bob Brown'' ''6'' 17 3 20 85 (- 1)] # [] \<and>
   apply_io (run_io [CopyFile ''base_file.csv'' ''base_file_11-04-12-00-00.csv''] test_files)
       (ToCsv (path_of main_base_file)
         [ledger_entry 1001 ''John Doe'' ''5'' 20 2 22 (9091 / 100) (- 2),
          ledger_entry 1004 ''Bob Brown'' ''6'' 17 3 20 85 (- 1)])
       (path_of main_base_file)
     \<noteq> run_io [CopyFile ''base_file.csv'' ''base_file_11-04-12-00-00.csv''] test_files
         (path_of main_base_file) \<and>
   run_io [CopyFile ''base_file.csv'' ''base_file_11-04-12-00-00.csv''] test_files
       (backup_file_path main_base_file ''11-04-12-00-00'')
     = Some (LedgerCsv test_base_file_content)"
proof -
  have ex: "base_file_exists test_files (path_of main_base_file)"
    by (simp add: base_file_exists_def path_of_main_base_file test_files_def)
  have ops: "fst (update_base_file False True ''11-04-12-00-00'' test_files test_current_week_content
          main_base_file [])
     = [CopyFile ''base_file.csv'' ''base_file_11-04-12-00-00.csv''] @
       ToCsv (path_of main_base_file)
         [ledger_entry 1001 ''John Doe'' ''5'' 20 2 22 (9091 / 100) (- 2),
          ledger_entry 1004 ''Bob Brown'' ''6'' 17 3 20 85 (- 1)] # []"
    by (simp add: path_of_main_base_file update_base_file_def base_file_exists_def
      read_csv_def pd_read_csv_def run_io_def create_backup_def clean_base_file_def
      prepare_current_week_data_def ledger_entry_def Let_def test_files_def
      test_base_file_content_def test_current_week_content_def
      backup_file_path_main_base_file att_row.extend_def ledger_row.fields_def)
  have mutates: "apply_io (run_io [CopyFile ''base_file.csv'' ''base_file_11-04-12-00-00.csv''] test_files)
       (ToCsv (path_of main_base_file)
         [ledger_entry 1001 ''John Doe'' ''5'' 20 2 22 (9091 / 100) (- 2),
          ledger_entry 1004 ''Bob Brown'' ''6'' 17 3 20 85 (- 1)])
       (path_of main_base_file)
     \<noteq> run_io [CopyFile ''base_file.csv'' ''base_file_11-04-12-00-00.csv''] test_files
         (path_of main_base_file)"
    by (simp add: path_of_main_base_file run_io_def test_files_def test_base_file_content_def)
  from backup_before_mutate[OF ex, rule_format, OF conjI[OF ops mutates]] ex ops mutates
  show ?thesis
    by (simp add: path_of_main_base_file test_files_def)
qed

subsection \<open>C6: the intervention-letter subset\<close>

text \<open>
  C6. For a data frame of records whose \<open>below_90_1_week\<close> is what \<open>prime_results\<close> set
  (current percentage below 90), a record is in the subset returned by
  \<open>filter_subset_by_conditions\<close> if and only if it is in the frame and satisfies the six
  conditions; and when the frame has the four comparison columns the function returns
  exactly the records satisfying the six conditions, in their order. (The pipeline's
  records are such: \<open>flag_attendance_issues_primed\<close>,
  \<open>later_stages_keep_below_90_1_week\<close>.)
\<close>

theorem filter_subset_six_conditions:
  assumes primed: "\<forall>r \<in> set df. below_90_1_week r = (current_week_att_percent r < 90)"
  shows "((\<exists>out. filter_subset_by_conditions df = Inr out \<and> r \<in> set out) \<longleftrightarrow>
            r \<in> set df \<and> qualifies_for_letter r) \<and>
         (has_column below_90_3_weeks df \<and> has_column trend_2_weeks df \<and>
          has_column trend_1_week df \<and> has_column below_90_2_weeks df \<longrightarrow>
            filter_subset_by_conditions df = Inr (filter qualifies_for_letter df))"
proof -
  have seven: "filter (\<lambda>r. current_week_att_percent r \<ge> 70)
          (filter (\<lambda>r. below_90_1_week r = True)
            (filter (\<lambda>r. below_90_2_weeks r = Some True)
              (filter (\<lambda>r. trend_1_week r = Some ''Down'')
                (filter (\<lambda>r. trend_2_weeks r = Some ''Down'')
                  (filter (\<lambda>r. below_90_3_weeks r = Some True \<and> current_week_att_percent r < 90)
                     df)))))
        = filter qualifies_for_letter df"
    unfolding filter_filter
    by (rule filter_cong[OF refl]) (use primed in \<open>auto simp: qualifies_for_letter_def\<close>)
  have returned: "filter_subset_by_conditions df = Inr (filter qualifies_for_letter df)"
    if "has_column below_90_3_weeks df" "has_column trend_2_weeks df"
       "has_column trend_1_week df" "has_column below_90_2_weeks df"
    using that seven by (simp add: filter_subset_by_conditions_def)
  have raised: "\<not> qualifies_for_letter x"
    if "x \<in> set df" "\<not> (has_column below_90_3_weeks df \<and> has_column trend_2_weeks df \<and>
          has_column trend_1_week df \<and> has_column below_90_2_weeks df)" for x
    using that by (auto simp: has_column_def qualifies_for_letter_def)
  have iff: "(\<exists>out. filter_subset_by_conditions df = Inr out \<and> r \<in> set out) \<longleftrightarrow>
            r \<in> set df \<and> qualifies_for_letter r"
  proof (cases "has_column below_90_3_weeks df \<and> has_column trend_2_weeks df \<and>
          has_column trend_1_week df \<and> has_column below_90_2_weeks df")
    case True
    then show ?thesis using returned by simp
  next
    case False
    then have "\<exists>e. filter_subset_by_conditions df = Inl e"
      by (auto simp: filter_subset_by_conditions_def)
    with False raised show ?thesis by auto
  qed
  from iff returned show ?thesis by blast
qed

theorem filter_subset_six_conditions_witness:
  "list_all (\<lambda>r. below_90_1_week r = (current_week_att_percent r < 90))
     [bob_white_result, charlie_black_result] \<and>
   filter_subset_by_conditions [bob_white_result, charlie_black_result] = Inr [bob_white_result] \<and>
   qualifies_for_letter bob_white_result \<and> \<not> qualifies_for_letter charlie_black_result"
proof -
  have primed: "\<forall>r \<in> set [bob_white_result, charlie_black_result].
      below_90_1_week r = (current_week_att_percent r < 90)"
    by (simp add: bob_white_result_def charlie_black_result_def new_result_def)
  have cols: "has_column below_90_3_weeks [bob_white_result, charlie_black_result] \<and>
      has_column trend_2_weeks [bob_white_result, charlie_black_result] \<and>
      has_column trend_1_week [bob_white_result, charlie_black_result] \<and>
      has_column below_90_2_weeks [bob_white_result, charlie_black_result]"
    by (auto simp: has_column_def bob_white_result_def new_result_def)
  have q: "qualifies_for_letter bob_white_result" "\<not> qualifies_for_letter charlie_black_result"
    by (simp_all add: qualifies_for_letter_def bob_white_result_def charlie_black_result_def
        new_result_def)
  from filter_subset_six_conditions[OF primed, of bob_white_result] cols q primed
  show ?thesis by simp
qed

subsection \<open>C7: medical days and best-case attendance\<close>



subsection \<open>C8: read_csv fails soft\<close>




subsection \<open>C9: the dry run\<close>

text \<open>
  C9. In testing mode \<open>update_base_file\<close> performs no write, so the files are as before;
  the steps of \<open>main\<close> that touch the base file leave the files as they were, and a second
  run on the files the first run left (at another time, with another outcome of the
  copy) gives the same results as the first.
\<close>

theorem test_mode_dry_run:
  "update_base_file True copy_ok timestamp files current_week_data p column_mapping = ([], None) \<and>
   run_io (fst (update_base_file True copy_ok timestamp files current_week_data p column_mapping)) files
     = files \<and>
   snd (main_attendance_steps True copy_ok timestamp files current_week_file p column_mapping) = files \<and>
   main_attendance_steps True copy_ok' timestamp'
       (snd (main_attendance_steps True copy_ok timestamp files current_week_file p column_mapping))
       current_week_file p column_mapping
     = main_attendance_steps True copy_ok timestamp files current_week_file p column_mapping"
proof -
  have u: "update_base_file True copy_ok timestamp files current_week_data p column_mapping = ([], None)"
    by (simp add: update_base_file_def)
  have s: "snd (main_attendance_steps True c t files current_week_file p column_mapping) = files" for c t
    by (simp add: main_attendance_steps_def split: sum.splits prod.splits)
  have d: "main_attendance_steps True c t files current_week_file p column_mapping
         = main_attendance_steps True c' t' files current_week_file p column_mapping" for c t c' t'
    by (simp add: main_attendance_steps_def split: sum.splits prod.splits)
  from u s d show ?thesis by (simp add: run_io_def)
qed

subsection \<open>C10: students without a school of residence\<close>



end
